theory Spec2Isabelle
  imports Main "HOL-Library.Sublist"
begin

section \<open>The storage backend\<close>

text \<open>
  The constructor of \<^verbatim>\<open>SyncLocalStorage\<close> receives \<^verbatim>\<open>window.localStorage\<close> "or something
  that implements that API".  The backend is modelled as the Web Storage API describes
  it: an ordered list of key/value pairs of strings, in insertion order.  The store keeps
  a reference to the backend and several stores may share one backend, so the backend
  state is passed to every operation and returned by the ones that change it.

  \<^item> \<^verbatim>\<open>length\<close> is the number of pairs;
  \<^item> \<^verbatim>\<open>key(i)\<close> is the key of the pair at index \<open>i\<close>, and \<^verbatim>\<open>null\<close> (\<open>None\<close>) when there
    is no such pair;
  \<^item> \<^verbatim>\<open>getItem(k)\<close> is the value stored under \<open>k\<close>, and \<^verbatim>\<open>null\<close> when there is none;
  \<^item> \<^verbatim>\<open>setItem(k, v)\<close> replaces the value of \<open>k\<close> where it stands, or appends a new pair;
  \<^item> \<^verbatim>\<open>removeItem(k)\<close> removes the pair of \<open>k\<close>, if any.

  A backend holds at most one pair for a key; \<open>ls_setItem\<close> and \<open>ls_removeItem\<close> keep it
  so (\<open>distinct_setItem\<close>, \<open>distinct_removeItem\<close>), and no result below needs it.
\<close>

type_synonym LocalStorage = "(string \<times> string) list"

definition ls_length :: "LocalStorage \<Rightarrow> nat" where
  "ls_length ls = length ls"

definition ls_key :: "LocalStorage \<Rightarrow> nat \<Rightarrow> string option" where
  "ls_key ls i = (if i < length ls then Some (fst (ls ! i)) else None)"

fun ls_getItem :: "LocalStorage \<Rightarrow> string \<Rightarrow> string option" where
  "ls_getItem [] k = None"
| "ls_getItem (p # ls) k = (if fst p = k then Some (snd p) else ls_getItem ls k)"

fun ls_setItem :: "LocalStorage \<Rightarrow> string \<Rightarrow> string \<Rightarrow> LocalStorage" where
  "ls_setItem [] k v = [(k, v)]"
| "ls_setItem (p # ls) k v = (if fst p = k then (k, v) # ls else p # ls_setItem ls k v)"

fun ls_removeItem :: "LocalStorage \<Rightarrow> string \<Rightarrow> LocalStorage" where
  "ls_removeItem [] k = []"
| "ls_removeItem (p # ls) k =
     (if fst p = k then ls_removeItem ls k else p # ls_removeItem ls k)"

section \<open>The string operations the source uses\<close>

text \<open>
  \<^verbatim>\<open>s.indexOf(c)\<close> is the index of the first occurrence of \<open>c\<close>, and \<open>-1\<close> when there is
  none.  \<^verbatim>\<open>s.substr(start)\<close> is the rest of \<open>s\<close> from \<open>start\<close> on, a negative \<open>start\<close>
  counting from the end; \<^verbatim>\<open>s.substr(start, n)\<close> is at most \<open>n\<close> characters of it.
\<close>

definition indexOf :: "string \<Rightarrow> char \<Rightarrow> int" where
  "indexOf s c =
     (if c \<in> set s then int (length (takeWhile (\<lambda>x. x \<noteq> c) s)) else - 1)"

definition substr :: "string \<Rightarrow> int \<Rightarrow> string" where
  "substr s start =
     drop (nat (if start < 0 then max 0 (int (length s) + start) else start)) s"

definition substr2 :: "string \<Rightarrow> int \<Rightarrow> int \<Rightarrow> string" where
  "substr2 s start n = take (nat n) (substr s start)"

section \<open>SyncLocalStorage\<close>

text \<open>
  The fields the constructor sets, but for \<^verbatim>\<open>_ls\<close>, the reference to the backend, whose
  state is the \<open>LocalStorage\<close> argument of every operation below.  The serializer turns a
  value into the string that is stored; the unserializer receives what the backend's
  \<^verbatim>\<open>getItem\<close> returned, a string or \<^verbatim>\<open>null\<close>.
\<close>

record 'v SyncLocalStorage =
  ns :: string
  serialize :: "'v \<Rightarrow> string"
  unserialize :: "string option \<Rightarrow> 'v"

definition getLength :: "'v SyncLocalStorage \<Rightarrow> LocalStorage \<Rightarrow> nat" where
  "getLength st ls = ls_length ls"

definition setItem :: "'v SyncLocalStorage \<Rightarrow> LocalStorage \<Rightarrow> string \<Rightarrow> 'v \<Rightarrow> LocalStorage" where
  "setItem st ls k v = ls_setItem ls (ns st @ ''.'' @ k) (serialize st v)"

definition getItem :: "'v SyncLocalStorage \<Rightarrow> LocalStorage \<Rightarrow> string \<Rightarrow> 'v" where
  "getItem st ls k = unserialize st (ls_getItem ls (ns st @ ''.'' @ k))"

definition removeItem :: "'v SyncLocalStorage \<Rightarrow> LocalStorage \<Rightarrow> string \<Rightarrow> LocalStorage" where
  "removeItem st ls k = ls_removeItem ls (ns st @ ''.'' @ k)"

text \<open>
  The test both \<^verbatim>\<open>key\<close> and \<^verbatim>\<open>findKeys\<close> make on a physical key \<open>k\<close>:
  \<^verbatim>\<open>(k.length > this._ns.length) && (k.substr(0,this._ns.length + 1) == this._ns+'.')\<close>,
  and the logical key both derive from it: \<^verbatim>\<open>k.substr(k.indexOf('.')+1)\<close>.
\<close>

definition inNamespace :: "'v SyncLocalStorage \<Rightarrow> string \<Rightarrow> bool" where
  "inNamespace st k \<longleftrightarrow>
     length k > length (ns st) \<and> substr2 k 0 (int (length (ns st)) + 1) = ns st @ ''.''"

definition stripKey :: "string \<Rightarrow> string" where
  "stripKey k = substr k (indexOf k CHR ''.'' + 1)"

definition key :: "'v SyncLocalStorage \<Rightarrow> LocalStorage \<Rightarrow> nat \<Rightarrow> string option" where
  "key st ls i =
     (case ls_key ls i of
        None \<Rightarrow> None
      | Some k \<Rightarrow> if inNamespace st k then Some (stripKey k) else None)"

text \<open>The loop of \<^verbatim>\<open>keys\<close>: \<open>r\<close> is the array built so far, \<open>l\<close> the length read before it.\<close>

function keys_loop ::
  "'v SyncLocalStorage \<Rightarrow> LocalStorage \<Rightarrow> nat \<Rightarrow> nat \<Rightarrow> string option list \<Rightarrow> string option list"
where
  "keys_loop st ls i l r =
     (if i < l then keys_loop st ls (i + 1) l (r @ [key st ls i]) else r)"
  by pat_completeness auto
termination
  by (relation "measure (\<lambda>(st, ls, i, l, r). l - i)") auto

definition keys :: "'v SyncLocalStorage \<Rightarrow> LocalStorage \<Rightarrow> string option list" where
  "keys st ls = keys_loop st ls 0 (getLength st ls) []"

text \<open>
  \<^verbatim>\<open>clear\<close> has two loops.  The first reads \<^verbatim>\<open>this.key(i)\<close> at every index below the
  length and pushes the results that are not \<^verbatim>\<open>null\<close>; the backend does not change
  while it runs.  The second shifts the keys off the array one by one and calls
  \<^verbatim>\<open>removeItem\<close> with each.
\<close>

function clear_collect ::
  "'v SyncLocalStorage \<Rightarrow> LocalStorage \<Rightarrow> nat \<Rightarrow> nat \<Rightarrow> string list \<Rightarrow> string list"
where
  "clear_collect st ls i l ks =
     (if i < l then
        (case key st ls i of
           None \<Rightarrow> clear_collect st ls (i + 1) l ks
         | Some k \<Rightarrow> clear_collect st ls (i + 1) l (ks @ [k]))
      else ks)"
  by pat_completeness auto
termination
  by (relation "measure (\<lambda>(st, ls, i, l, ks). l - i)") auto

fun clear_remove :: "'v SyncLocalStorage \<Rightarrow> LocalStorage \<Rightarrow> string list \<Rightarrow> LocalStorage" where
  "clear_remove st ls [] = ls"
| "clear_remove st ls (k # ks) = clear_remove st (removeItem st ls k) ks"

definition clear :: "'v SyncLocalStorage \<Rightarrow> LocalStorage \<Rightarrow> LocalStorage" where
  "clear st ls = clear_remove st ls (clear_collect st ls 0 (getLength st ls) [])"

text \<open>
  \<^verbatim>\<open>findKeys\<close> calls \<^verbatim>\<open>buildRe\<close>, the module that the enclosing function receives as its
  argument; it is a parameter here as well.  \<^verbatim>\<open>buildRe\<close> returns \<^verbatim>\<open>false\<close> (\<open>None\<close>) or a
  regular expression, of which only \<^verbatim>\<open>test\<close> is used: a predicate on strings.  A failed
  compilation throws an \<^verbatim>\<open>Error\<close> whose message quotes the pattern.  The loop reads
  \<^verbatim>\<open>k.length\<close> of what the backend's \<^verbatim>\<open>key(i)\<close> returned without a test for \<^verbatim>\<open>null\<close>,
  which is a \<^verbatim>\<open>TypeError\<close> if the backend returns \<^verbatim>\<open>null\<close> there.
\<close>

datatype error = Error string | TypeError

type_synonym matcher = "string \<Rightarrow> bool"

function findKeys_loop ::
  "'v SyncLocalStorage \<Rightarrow> LocalStorage \<Rightarrow> matcher \<Rightarrow> nat \<Rightarrow> nat \<Rightarrow> string list
     \<Rightarrow> error + string list"
where
  "findKeys_loop st ls re i l r =
     (if i < l then
        (case ls_key ls i of
           None \<Rightarrow> Inl TypeError
         | Some k \<Rightarrow>
             if inNamespace st k then
               (if re (stripKey k) then findKeys_loop st ls re (i + 1) l (r @ [stripKey k])
                else findKeys_loop st ls re (i + 1) l r)
             else findKeys_loop st ls re (i + 1) l r)
      else Inr r)"
  by pat_completeness auto
termination
  by (relation "measure (\<lambda>(st, ls, re, i, l, r). l - i)") auto

definition patternMessage :: "string \<Rightarrow> string" where
  "patternMessage pattern =
     ''You cannot find keys from the pattern '' @ [CHR 0x27] @ pattern @ [CHR 0x27]"

definition findKeys ::
  "(string \<Rightarrow> matcher option) \<Rightarrow> 'v SyncLocalStorage \<Rightarrow> LocalStorage \<Rightarrow> string
     \<Rightarrow> error + string list"
where
  "findKeys buildRe st ls pattern =
     (case buildRe pattern of
        None \<Rightarrow> Inl (Error (patternMessage pattern))
      | Some re \<Rightarrow> findKeys_loop st ls re 0 (ls_length ls) [])"

section \<open>The pattern compiler\<close>

text \<open>
  Modelled from the spec: \<^verbatim>\<open>FindKeysReBuilder.js\<close>, the module \<^verbatim>\<open>findKeys\<close> receives as
  \<^verbatim>\<open>buildRe\<close>, is not among the sources.  \<open>split_dot\<close> gives the dot-separated segments
  of a pattern or of a candidate key; a string without a dot, the empty one included,
  is one segment.
\<close>

fun split_dot :: "string \<Rightarrow> string list" where
  "split_dot [] = [[]]"
| "split_dot (c # cs) =
     (if c = CHR ''.'' then [] # split_dot cs
      else (c # hd (split_dot cs)) # tl (split_dot cs))"

text \<open>
  Modelled from the spec: a pattern segment (\<^verbatim>\<open>FindKeysReBuilder.js\<close> is missing) is "either
  the literal wildcard \<^verbatim>\<open>*\<close> or an arbitrary literal run of characters"; an empty segment
  and a \<^verbatim>\<open>*\<close> "embedded inside a literal segment rather than occupying a whole segment"
  are malformed.
\<close>

definition segment_ok :: "string \<Rightarrow> bool" where
  "segment_ok seg \<longleftrightarrow> seg \<noteq> [] \<and> (seg = ''*'' \<or> CHR ''*'' \<notin> set seg)"

text \<open>
  Modelled from the spec: a candidate segment (\<^verbatim>\<open>FindKeysReBuilder.js\<close> is missing) "either
  equals the corresponding literal pattern segment or the pattern segment is \<^verbatim>\<open>*\<close>".
\<close>

definition segment_matches :: "string \<Rightarrow> string \<Rightarrow> bool" where
  "segment_matches p c \<longleftrightarrow> p = ''*'' \<or> c = p"

text \<open>
  Modelled from the spec: the matcher (\<^verbatim>\<open>FindKeysReBuilder.js\<close> is missing) "returns true
  iff the candidate key has the same number of dot-separated segments as the pattern,
  and each candidate segment either equals the corresponding literal pattern segment or
  the pattern segment is \<^verbatim>\<open>*\<close>".
\<close>

definition pattern_matches :: "string \<Rightarrow> string \<Rightarrow> bool" where
  "pattern_matches pattern k \<longleftrightarrow>
     length (split_dot k) = length (split_dot pattern) \<and>
     list_all2 segment_matches (split_dot pattern) (split_dot k)"

text \<open>
  Modelled from the spec: the compiler (\<^verbatim>\<open>FindKeysReBuilder.js\<close> is missing) returns the
  matcher of a well-formed pattern and "a distinguishable invalid result", here \<open>None\<close>,
  for a malformed one; it does not throw.
\<close>

definition FindKeysReBuilder :: "string \<Rightarrow> matcher option" where
  "FindKeysReBuilder pattern =
     (if list_all segment_ok (split_dot pattern) then Some (pattern_matches pattern)
      else None)"

section \<open>The words of the specification\<close>

text \<open>
  A physical key belongs to a namespace when it starts with the namespace and a dot;
  its logical key is the portion after the namespace prefix and its separating dot.
  The index-based key operation is described with "the substring after the first dot
  character found in the key".  \<^verbatim>\<open>keys()\<close> filtered to its entries that are not
  \<^verbatim>\<open>null\<close> is \<open>nonNull\<close>.
\<close>

definition startsWithNamespace :: "'v SyncLocalStorage \<Rightarrow> string \<Rightarrow> bool" where
  "startsWithNamespace st k \<longleftrightarrow> prefix (ns st @ ''.'') k"

definition logicalKey :: "'v SyncLocalStorage \<Rightarrow> string \<Rightarrow> string" where
  "logicalKey st k = drop (length (ns st) + 1) k"

definition afterFirstDot :: "string \<Rightarrow> string" where
  "afterFirstDot k = tl (dropWhile (\<lambda>c. c \<noteq> CHR ''.'') k)"

fun nonNull :: "'a option list \<Rightarrow> 'a list" where
  "nonNull [] = []"
| "nonNull (None # xs) = nonNull xs"
| "nonNull (Some x # xs) = x # nonNull xs"

definition physicalKeys :: "LocalStorage \<Rightarrow> string list" where
  "physicalKeys ls = map fst ls"

section \<open>Strings and the backend\<close>

declare keys_loop.simps [simp del]
declare clear_collect.simps [simp del]
declare findKeys_loop.simps [simp del]

lemma substr_nonneg: "0 \<le> start \<Longrightarrow> substr s start = drop (nat start) s"
  by (simp add: substr_def)

lemma substr2_zero: "substr2 s 0 (int n) = take n s"
  by (simp add: substr2_def substr_def)

lemma inNamespace_iff: "inNamespace st k \<longleftrightarrow> startsWithNamespace st k"
proof
  assume a: "inNamespace st k"
  have "int (length (ns st)) + 1 = int (length (ns st) + 1)" by simp
  with a have t: "take (length (ns st) + 1) k = ns st @ ''.''"
    unfolding inNamespace_def by (simp only: substr2_zero)
  have "k = take (length (ns st) + 1) k @ drop (length (ns st) + 1) k"
    by simp
  with t have "k = (ns st @ ''.'') @ drop (length (ns st) + 1) k"
    by simp
  then show "startsWithNamespace st k"
    unfolding startsWithNamespace_def by (rule prefixI)
next
  assume "startsWithNamespace st k"
  then obtain zs where k: "k = (ns st @ ''.'') @ zs"
    unfolding startsWithNamespace_def by (auto elim: prefixE)
  have "int (length (ns st)) + 1 = int (length (ns st) + 1)" by simp
  then have "substr2 k 0 (int (length (ns st)) + 1) = take (length (ns st) + 1) k"
    by (simp only: substr2_zero)
  with k show "inNamespace st k"
    unfolding inNamespace_def by simp
qed

lemma stripKey_afterFirstDot:
  assumes "CHR ''.'' \<in> set k"
  shows "stripKey k = afterFirstDot k"
proof -
  let ?P = "\<lambda>c. c \<noteq> CHR ''.''"
  have "stripKey k = drop (Suc (length (takeWhile ?P k))) k"
    using assms by (simp add: stripKey_def indexOf_def substr_nonneg nat_add_distrib)
  also have "\<dots> = tl (drop (length (takeWhile ?P k)) k)"
    by (simp add: drop_Suc tl_drop)
  also have "\<dots> = tl (dropWhile ?P k)"
    by (simp add: dropWhile_eq_drop)
  finally show ?thesis by (simp add: afterFirstDot_def)
qed

lemma startsWithNamespace_dot: "startsWithNamespace st k \<Longrightarrow> CHR ''.'' \<in> set k"
  unfolding startsWithNamespace_def by (auto elim!: prefixE)

lemma takeWhile_upto_char:
  "c \<notin> set xs \<Longrightarrow> takeWhile (\<lambda>x. x \<noteq> c) (xs @ c # ys) = xs"
  by (induction xs) auto

lemma stripKey_logicalKey:
  assumes dotfree: "CHR ''.'' \<notin> set (ns st)" and k: "startsWithNamespace st k"
  shows "stripKey k = logicalKey st k"
proof -
  from k obtain zs where kz: "k = ns st @ CHR ''.'' # zs"
    unfolding startsWithNamespace_def by (auto elim: prefixE)
  have "takeWhile (\<lambda>c. c \<noteq> CHR ''.'') k = ns st"
    using dotfree by (simp add: kz takeWhile_upto_char)
  then have "afterFirstDot k = drop (length (ns st) + 1) k"
    by (simp add: afterFirstDot_def dropWhile_eq_drop drop_Suc tl_drop)
  moreover have "CHR ''.'' \<in> set k" by (simp add: kz)
  ultimately show ?thesis
    by (simp add: stripKey_afterFirstDot logicalKey_def)
qed

lemma logicalKey_physical:
  "startsWithNamespace st k \<Longrightarrow> ns st @ ''.'' @ logicalKey st k = k"
  unfolding startsWithNamespace_def logicalKey_def by (auto elim!: prefixE)

lemma ls_removeItem_filter: "ls_removeItem ls k = filter (\<lambda>p. fst p \<noteq> k) ls"
  by (induction ls) auto

lemma ls_getItem_removeItem: "ls_getItem (ls_removeItem ls k) k = None"
  by (induction ls) auto

lemma ls_getItem_setItem_same: "ls_getItem (ls_setItem ls k v) k = Some v"
  by (induction ls) auto

lemma ls_getItem_setItem_other:
  "k' \<noteq> k \<Longrightarrow> ls_getItem (ls_setItem ls k v) k' = ls_getItem ls k'"
  by (induction ls) auto

lemma ls_length_setItem_new:
  "ls_getItem ls k = None \<Longrightarrow> ls_length (ls_setItem ls k v) = ls_length ls + 1"
  by (induction ls) (auto simp: ls_length_def split: if_splits)

lemma physicalKeys_setItem:
  "set (physicalKeys (ls_setItem ls k v)) = insert k (set (physicalKeys ls))"
  by (induction ls) (auto simp: physicalKeys_def)

lemma distinct_setItem:
  "distinct (physicalKeys ls) \<Longrightarrow> distinct (physicalKeys (ls_setItem ls k v))"
proof (induction ls)
  case Nil
  show ?case by (simp add: physicalKeys_def)
next
  case (Cons p ls)
  then have d: "distinct (physicalKeys ls)" and n: "fst p \<notin> set (physicalKeys ls)"
    by (simp_all add: physicalKeys_def)
  show ?case
  proof (cases "fst p = k")
    case True
    with d n show ?thesis by (simp add: physicalKeys_def)
  next
    case False
    have "physicalKeys (ls_setItem (p # ls) k v) = fst p # physicalKeys (ls_setItem ls k v)"
      using False by (simp add: physicalKeys_def)
    moreover have "fst p \<notin> set (physicalKeys (ls_setItem ls k v))"
      using False n by (simp add: physicalKeys_setItem)
    ultimately show ?thesis using Cons.IH [OF d] by simp
  qed
qed

lemma distinct_removeItem:
  "distinct (physicalKeys ls) \<Longrightarrow> distinct (physicalKeys (ls_removeItem ls k))"
  by (simp add: ls_removeItem_filter physicalKeys_def distinct_map_filter)

lemma ls_key_physicalKeys:
  "i < ls_length ls \<Longrightarrow> ls_key ls i = Some (physicalKeys ls ! i)"
  by (simp add: ls_key_def ls_length_def physicalKeys_def)

section \<open>The loops\<close>

lemma keys_loop_map:
  "keys_loop st ls i l r = r @ map (key st ls) [i..<l]"
proof (induction st ls i l r rule: keys_loop.induct)
  case (1 st ls i l r)
  show ?case
  proof (cases "i < l")
    case True
    then have "[i..<l] = i # [i + 1..<l]"
      by (simp add: upt_conv_Cons)
    with True "1.IH" show ?thesis
      by (subst keys_loop.simps) simp
  next
    case False
    then show ?thesis
      by (subst keys_loop.simps) simp
  qed
qed

lemma keys_map: "keys st ls = map (key st ls) [0..<ls_length ls]"
  by (simp add: keys_def getLength_def keys_loop_map)

lemma key_in_range:
  "i < ls_length ls \<Longrightarrow>
   key st ls i =
     (if inNamespace st (physicalKeys ls ! i) then Some (stripKey (physicalKeys ls ! i))
      else None)"
  by (simp add: key_def ls_key_physicalKeys)

lemma keys_physicalKeys:
  "keys st ls =
     map (\<lambda>k. if inNamespace st k then Some (stripKey k) else None) (physicalKeys ls)"
proof (rule nth_equalityI)
  show "length (keys st ls) =
    length (map (\<lambda>k. if inNamespace st k then Some (stripKey k) else None) (physicalKeys ls))"
    by (simp add: keys_map physicalKeys_def ls_length_def)
next
  fix i assume "i < length (keys st ls)"
  then have i: "i < ls_length ls" by (simp add: keys_map)
  then have "i < length (physicalKeys ls)" by (simp add: physicalKeys_def ls_length_def)
  with i show "keys st ls ! i =
    map (\<lambda>k. if inNamespace st k then Some (stripKey k) else None) (physicalKeys ls) ! i"
    by (simp add: keys_map key_in_range)
qed

lemma clear_collect_nonNull:
  "clear_collect st ls i l ks = ks @ nonNull (map (key st ls) [i..<l])"
proof (induction st ls i l ks rule: clear_collect.induct)
  case (1 st ls i l ks)
  show ?case
  proof (cases "i < l")
    case True
    then have u: "[i..<l] = i # [i + 1..<l]"
      by (simp add: upt_conv_Cons)
    show ?thesis
    proof (cases "key st ls i")
      case None
      with True "1.IH"(1) u show ?thesis
        by (subst clear_collect.simps) simp
    next
      case (Some k)
      with True "1.IH"(2) u show ?thesis
        by (subst clear_collect.simps) simp
    qed
  next
    case False
    then show ?thesis
      by (subst clear_collect.simps) simp
  qed
qed

lemma nonNull_map_if:
  "nonNull (map (\<lambda>k. if P k then Some (f k) else None) xs) = map f (filter P xs)"
  by (induction xs) auto

lemma clear_snapshot: "clear st ls = clear_remove st ls (nonNull (keys st ls))"
  by (simp only: clear_def getLength_def clear_collect_nonNull keys_map append_Nil)

lemma clear_remove_filter:
  "clear_remove st ls ks = filter (\<lambda>p. fst p \<notin> (\<lambda>k. ns st @ ''.'' @ k) ` set ks) ls"
proof (induction ks arbitrary: ls)
  case Nil
  show ?case by simp
next
  case (Cons k ks)
  show ?case
    by (simp add: Cons.IH removeItem_def ls_removeItem_filter)
qed

lemma findKeys_loop_filter:
  "l \<le> ls_length ls \<Longrightarrow>
   findKeys_loop st ls re i l r =
     Inr (r @ filter re (map stripKey (filter (inNamespace st) (map (\<lambda>j. physicalKeys ls ! j) [i..<l]))))"
proof (induction st ls re i l r rule: findKeys_loop.induct)
  case (1 st ls re i l r)
  show ?case
  proof (cases "i < l")
    case True
    then have u: "[i..<l] = i # [i + 1..<l]"
      by (simp add: upt_conv_Cons)
    from True "1.prems" have k: "ls_key ls i = Some (physicalKeys ls ! i)"
      by (simp add: ls_key_physicalKeys)
    show ?thesis
      using True k u "1.IH"(1)[OF True k] "1.IH"(2)[OF True k] "1.IH"(3)[OF True k] "1.prems"
      by (subst findKeys_loop.simps) simp
  next
    case False
    then show ?thesis
      by (subst findKeys_loop.simps) simp
  qed
qed

lemma findKeys_filter:
  "buildRe pattern = Some re \<Longrightarrow>
   findKeys buildRe st ls pattern =
     Inr (filter re (map stripKey (filter (inNamespace st) (physicalKeys ls))))"
proof -
  assume b: "buildRe pattern = Some re"
  have "map (\<lambda>j. physicalKeys ls ! j) [0..<ls_length ls] = physicalKeys ls"
    using map_nth [of "map fst ls"] by (simp add: ls_length_def physicalKeys_def)
  with b show ?thesis
    by (simp add: findKeys_def findKeys_loop_filter)
qed

section \<open>Index-based key lookup\<close>

lemma ls_key_beyond: "ls_length ls \<le> i \<Longrightarrow> ls_key ls i = None"
  by (simp add: ls_key_def ls_length_def)

text \<open>
  C10.  At every index where the backend's \<^verbatim>\<open>key(i)\<close> returns \<^verbatim>\<open>null\<close>, in particular
  at every index at or beyond the backend's length, the store's \<^verbatim>\<open>key(i)\<close> returns
  \<^verbatim>\<open>null\<close>; it is a value of the function, not a failure.
\<close>

theorem key_null_of_backend_null:
  "(ls_key ls i = None \<longrightarrow> key st ls i = None) \<and>
   (ls_length ls \<le> i \<longrightarrow> key st ls i = None)"
  by (simp add: key_def ls_key_beyond)

theorem key_null_of_backend_null_witness:
  "ls_key [(''ns.a'', ''1'')] 1 = None \<and> ls_length [(''ns.a'', ''1'')] \<le> 1 \<and>
   key \<lparr>ns = ''ns'', serialize = id, unserialize = the\<rparr> [(''ns.a'', ''1'')] 1 = None"
  using key_null_of_backend_null
    [of "[(''ns.a'', ''1'')]" 1 "\<lparr>ns = ''ns'', serialize = id, unserialize = the\<rparr>"]
  by (simp add: ls_key_def ls_length_def)

text \<open>
  C3.  The index-based key operation returns \<^verbatim>\<open>null\<close> when the backend's key at \<open>i\<close>
  does not start with the namespace and a dot, or is no longer than the namespace (it has
  no logical suffix); otherwise it returns what follows the first dot found anywhere in
  the physical key, which is the dot after the namespace only if the namespace has no
  dot of its own.  A physical key that is exactly the namespace and a dot is longer than
  the namespace: for it the result is the empty string, not \<^verbatim>\<open>null\<close>.
\<close>

theorem key_spec:
  "key st ls i =
     (case ls_key ls i of
        None \<Rightarrow> None
      | Some k \<Rightarrow>
          if \<not> startsWithNamespace st k \<or> length k \<le> length (ns st) then None
          else Some (afterFirstDot k))"
proof (cases "ls_key ls i")
  case None
  then show ?thesis by (simp add: key_def)
next
  case (Some k)
  show ?thesis
  proof (cases "startsWithNamespace st k")
    case True
    then have "inNamespace st k" by (simp add: inNamespace_iff)
    then have len: "length (ns st) < length k" by (simp add: inNamespace_def)
    from True have "stripKey k = afterFirstDot k"
      by (simp add: stripKey_afterFirstDot startsWithNamespace_dot)
    with Some True len show ?thesis
      by (simp add: key_def inNamespace_iff)
  next
    case False
    with Some show ?thesis by (simp add: key_def inNamespace_iff)
  qed
qed

theorem key_spec_witness:
  "key \<lparr>ns = ''a.b'', serialize = id, unserialize = the\<rparr>
     [(''a.b.c'', ''1''), (''x.y'', ''2''), (''a.b'', ''3'')] 0 = Some ''b.c'' \<and>
   key \<lparr>ns = ''a.b'', serialize = id, unserialize = the\<rparr>
     [(''a.b.c'', ''1''), (''x.y'', ''2''), (''a.b'', ''3'')] 1 = None \<and>
   key \<lparr>ns = ''a.b'', serialize = id, unserialize = the\<rparr>
     [(''a.b.c'', ''1''), (''x.y'', ''2''), (''a.b'', ''3'')] 2 = None \<and>
   key \<lparr>ns = ''a.b'', serialize = id, unserialize = the\<rparr>
     [(''a.b.c'', ''1''), (''x.y'', ''2''), (''a.b'', ''3'')] 3 = None \<and>
   key \<lparr>ns = ''ns'', serialize = id, unserialize = the\<rparr> [(''ns.'', ''1'')] 0 = Some []"
  using
    key_spec [of "\<lparr>ns = ''ns'', serialize = id, unserialize = the\<rparr>" "[(''ns.'', ''1'')]" 0]
    key_spec [of "\<lparr>ns = ''a.b'', serialize = id, unserialize = the\<rparr>"
      "[(''a.b.c'', ''1''), (''x.y'', ''2''), (''a.b'', ''3'')]" 0]
    key_spec [of "\<lparr>ns = ''a.b'', serialize = id, unserialize = the\<rparr>"
      "[(''a.b.c'', ''1''), (''x.y'', ''2''), (''a.b'', ''3'')]" 1]
    key_spec [of "\<lparr>ns = ''a.b'', serialize = id, unserialize = the\<rparr>"
      "[(''a.b.c'', ''1''), (''x.y'', ''2''), (''a.b'', ''3'')]" 2]
    key_spec [of "\<lparr>ns = ''a.b'', serialize = id, unserialize = the\<rparr>"
      "[(''a.b.c'', ''1''), (''x.y'', ''2''), (''a.b'', ''3'')]" 3]
  by (simp add: ls_key_def startsWithNamespace_def afterFirstDot_def)

section \<open>Enumeration\<close>

text \<open>
  C5.  \<^verbatim>\<open>keys()\<close> is as long as the whole backend; its entry at each index
  \<open>0 \<le> i < length\<close> is the result of \<^verbatim>\<open>key(i)\<close>, so a position whose physical key lies
  outside the namespace holds \<^verbatim>\<open>null\<close>: the result is positional, not filtered.
\<close>

theorem keys_positional:
  "length (keys st ls) = ls_length ls \<and>
   keys st ls = map (key st ls) [0..<ls_length ls] \<and>
   (\<forall>i<ls_length ls.
      \<not> startsWithNamespace st (physicalKeys ls ! i) \<longrightarrow> keys st ls ! i = None)"
proof (intro conjI allI impI)
  show "length (keys st ls) = ls_length ls" by (simp add: keys_map)
  show "keys st ls = map (key st ls) [0..<ls_length ls]" by (rule keys_map)
next
  fix i assume "i < ls_length ls" and "\<not> startsWithNamespace st (physicalKeys ls ! i)"
  then show "keys st ls ! i = None"
    by (simp add: keys_map key_in_range inNamespace_iff)
qed

theorem keys_positional_witness:
  "1 < ls_length [(''ns.x'', ''1''), (''other.y'', ''2''), (''ns.z'', ''3'')] \<and>
   \<not> startsWithNamespace \<lparr>ns = ''ns'', serialize = id, unserialize = the\<rparr>
       (physicalKeys [(''ns.x'', ''1''), (''other.y'', ''2''), (''ns.z'', ''3'')] ! 1) \<and>
   keys \<lparr>ns = ''ns'', serialize = id, unserialize = the\<rparr>
     [(''ns.x'', ''1''), (''other.y'', ''2''), (''ns.z'', ''3'')] ! 1 = None \<and>
   length (keys \<lparr>ns = ''ns'', serialize = id, unserialize = the\<rparr>
     [(''ns.x'', ''1''), (''other.y'', ''2''), (''ns.z'', ''3'')]) = 3"
proof -
  let ?st = "\<lparr>ns = ''ns'', serialize = id, unserialize = the\<rparr> :: string SyncLocalStorage"
  let ?ls = "[(''ns.x'', ''1''), (''other.y'', ''2''), (''ns.z'', ''3'')]"
  note k = keys_positional [of ?st ?ls]
  have a: "1 < ls_length ?ls" by (simp add: ls_length_def)
  have b: "\<not> startsWithNamespace ?st (physicalKeys ?ls ! 1)"
    by (simp add: physicalKeys_def startsWithNamespace_def)
  from k a b have c: "keys ?st ?ls ! 1 = None" by blast
  from k have d: "length (keys ?st ?ls) = 3" by (simp add: ls_length_def)
  from a b c d show ?thesis by simp
qed

text \<open>
  C6.  \<^verbatim>\<open>getLength\<close> (also installed as \<^verbatim>\<open>length\<close>) is the number of entries of the
  whole backend, whatever the namespace of the store: a new key written through any
  store, of any namespace, raises it by one.
\<close>

theorem getLength_whole_backend:
  "getLength st ls = length (physicalKeys ls) \<and>
   (ls_getItem ls (ns st' @ ''.'' @ k) = None \<longrightarrow>
      getLength st (setItem st' ls k v) = getLength st ls + 1)"
  by (simp add: getLength_def physicalKeys_def setItem_def ls_length_setItem_new)
    (simp add: ls_length_def)

theorem getLength_whole_backend_witness:
  "ls_getItem [(''b.x'', ''1'')] (ns \<lparr>ns = ''b'', serialize = id, unserialize = the\<rparr> @ ''.'' @ ''y'') = None \<and>
   getLength \<lparr>ns = ''a'', serialize = id, unserialize = the\<rparr>
     (setItem \<lparr>ns = ''b'', serialize = id, unserialize = the\<rparr> [(''b.x'', ''1'')] ''y'' ''2'') = 2"
  using getLength_whole_backend
    [of "\<lparr>ns = ''a'', serialize = id, unserialize = the\<rparr>" "[(''b.x'', ''1'')]"
        "\<lparr>ns = ''b'', serialize = id, unserialize = the\<rparr>" "''y''" "''2''"]
  by (simp add: physicalKeys_def)

section \<open>Reading and writing\<close>

text \<open>
  C7.  Two stores with different namespaces share a backend.  Setting key \<open>k\<close> through
  the first does not change what \<^verbatim>\<open>getItem(k)\<close> returns through the second.
\<close>

theorem setItem_other_namespace:
  "ns st1 \<noteq> ns st2 \<Longrightarrow> getItem st2 (setItem st1 ls k v) k = getItem st2 ls k"
proof -
  assume "ns st1 \<noteq> ns st2"
  then have "ns st2 @ ''.'' @ k \<noteq> ns st1 @ ''.'' @ k" by simp
  then have "ls_getItem (ls_setItem ls (ns st1 @ ''.'' @ k) (serialize st1 v)) (ns st2 @ ''.'' @ k)
      = ls_getItem ls (ns st2 @ ''.'' @ k)"
    by (rule ls_getItem_setItem_other)
  then show ?thesis
    by (simp only: getItem_def setItem_def)
qed

theorem setItem_other_namespace_witness:
  "ns \<lparr>ns = ''a'', serialize = id, unserialize = the\<rparr>
     \<noteq> ns \<lparr>ns = ''b'', serialize = id, unserialize = the\<rparr> \<and>
   getItem \<lparr>ns = ''b'', serialize = id, unserialize = the\<rparr>
     (setItem \<lparr>ns = ''a'', serialize = id, unserialize = the\<rparr> [(''b.k'', ''old'')] ''k'' ''new'') ''k''
   = ''old''"
  using setItem_other_namespace
    [of "\<lparr>ns = ''a'', serialize = id, unserialize = the\<rparr>"
        "\<lparr>ns = ''b'', serialize = id, unserialize = the\<rparr>" "[(''b.k'', ''old'')]" "''k''" "''new''"]
  by (simp add: getItem_def)

text \<open>
  C8.  If the unserializer gives back \<open>v\<close> from the serialized \<open>v\<close>, then \<^verbatim>\<open>setItem(k, v)\<close>
  followed by \<^verbatim>\<open>getItem(k)\<close> on the same store returns \<open>v\<close>.
\<close>

theorem set_get_roundtrip:
  "unserialize st (Some (serialize st v)) = v \<Longrightarrow> getItem st (setItem st ls k v) k = v"
  by (simp add: getItem_def setItem_def ls_getItem_setItem_same)

theorem set_get_roundtrip_witness:
  "unserialize \<lparr>ns = ''ns'', serialize = id, unserialize = case_option '''' id\<rparr>
     (Some (serialize \<lparr>ns = ''ns'', serialize = id, unserialize = case_option '''' id\<rparr> ''v'')) = ''v'' \<and>
   getItem \<lparr>ns = ''ns'', serialize = id, unserialize = case_option '''' id\<rparr>
     (setItem \<lparr>ns = ''ns'', serialize = id, unserialize = case_option '''' id\<rparr>
        [(''ns.x'', ''old'')] ''x'' ''v'') ''x'' = ''v''"
  using set_get_roundtrip
    [of "\<lparr>ns = ''ns'', serialize = id, unserialize = case_option '''' id\<rparr>" "''v''"
        "[(''ns.x'', ''old'')]" "''x''"]
  by simp

text \<open>
  C9.  \<^verbatim>\<open>removeItem(k)\<close> followed by \<^verbatim>\<open>getItem(k)\<close> on the same store returns what the
  unserializer makes of the backend's missing-value result, \<^verbatim>\<open>null\<close>.
\<close>

theorem remove_get:
  "getItem st (removeItem st ls k) k = unserialize st None"
  by (simp add: getItem_def removeItem_def ls_getItem_removeItem)

theorem remove_get_witness:
  "getItem \<lparr>ns = ''ns'', serialize = id, unserialize = case_option ''missing'' id\<rparr>
     (removeItem \<lparr>ns = ''ns'', serialize = id, unserialize = case_option ''missing'' id\<rparr>
        [(''ns.x'', ''1'')] ''x'') ''x'' = ''missing''"
  using remove_get
    [of "\<lparr>ns = ''ns'', serialize = id, unserialize = case_option ''missing'' id\<rparr>"
        "[(''ns.x'', ''1'')]" "''x''"]
  by simp

section \<open>Searching by pattern\<close>

text \<open>
  C2.  When \<^verbatim>\<open>buildRe\<close> rejects the pattern, \<^verbatim>\<open>findKeys\<close> fails with the error whose
  message quotes the pattern, and the outcome is the same for every state of the
  backend: nothing of the backend is read and no partial result is returned.
\<close>

theorem findKeys_invalid_pattern:
  "buildRe pattern = None \<Longrightarrow>
   findKeys buildRe st ls pattern =
     Inl (Error (''You cannot find keys from the pattern '' @ [CHR 0x27] @ pattern @ [CHR 0x27])) \<and>
   findKeys buildRe st ls pattern = findKeys buildRe st ls' pattern"
  by (simp add: findKeys_def patternMessage_def)

theorem findKeys_invalid_pattern_witness:
  "FindKeysReBuilder ''cars..large'' = None \<and>
   findKeys FindKeysReBuilder \<lparr>ns = ''shop'', serialize = id, unserialize = the\<rparr>
     [(''shop.cars.bmw.large'', ''1'')] ''cars..large''
   = Inl (Error (''You cannot find keys from the pattern '' @ [CHR 0x27] @ ''cars..large'' @ [CHR 0x27])) \<and>
   FindKeysReBuilder '''' = None \<and>
   findKeys FindKeysReBuilder \<lparr>ns = ''shop'', serialize = id, unserialize = the\<rparr>
     [(''shop.cars.bmw.large'', ''1'')] ''''
   = Inl (Error (''You cannot find keys from the pattern '' @ [CHR 0x27] @ '''' @ [CHR 0x27]))"
proof -
  have a: "FindKeysReBuilder ''cars..large'' = None"
    by (simp add: FindKeysReBuilder_def segment_ok_def)
  have b: "FindKeysReBuilder '''' = None"
    by (simp add: FindKeysReBuilder_def segment_ok_def)
  show ?thesis
    using a b
      findKeys_invalid_pattern [of FindKeysReBuilder "''cars..large''"
        "\<lparr>ns = ''shop'', serialize = id, unserialize = the\<rparr>"
        "[(''shop.cars.bmw.large'', ''1'')]" "[]", OF a]
      findKeys_invalid_pattern [of FindKeysReBuilder "[]"
        "\<lparr>ns = ''shop'', serialize = id, unserialize = the\<rparr>"
        "[(''shop.cars.bmw.large'', ''1'')]" "[]", OF b]
    by simp
qed

text \<open>
  For a namespace without a dot, the rest after the first dot is the logical key, and
  \<^verbatim>\<open>findKeys\<close> returns, in the backend's order, the logical keys of the namespace that
  the matcher accepts.
\<close>

lemma findKeys_dot_free:
  assumes "CHR ''.'' \<notin> set (ns st)" and "buildRe pattern = Some re"
  shows "findKeys buildRe st ls pattern =
     Inr (filter re (map (logicalKey st) (filter (startsWithNamespace st) (physicalKeys ls))))"
proof -
  have "map stripKey (filter (inNamespace st) (physicalKeys ls)) =
        map (logicalKey st) (filter (startsWithNamespace st) (physicalKeys ls))"
    using assms(1) by (auto simp: inNamespace_iff stripKey_logicalKey intro!: map_cong filter_cong)
  with assms(2) show ?thesis
    by (simp add: findKeys_filter)
qed

lemma FindKeysReBuilder_valid:
  "FindKeysReBuilder pattern = Some re \<Longrightarrow> re = pattern_matches pattern"
  by (simp add: FindKeysReBuilder_def split: if_splits)

lemma findKeys_matches_dot_free:
  assumes "CHR ''.'' \<notin> set (ns st)" and "FindKeysReBuilder pattern = Some re"
  shows "findKeys FindKeysReBuilder st ls pattern =
     Inr (filter (pattern_matches pattern)
            (map (logicalKey st) (filter (startsWithNamespace st) (physicalKeys ls))))"
proof -
  from assms(2) have "re = pattern_matches pattern" by (rule FindKeysReBuilder_valid)
  with findKeys_dot_free [where buildRe = FindKeysReBuilder, OF assms] show ?thesis
    by simp
qed

lemma findKeys_examples:
  "findKeys FindKeysReBuilder \<lparr>ns = ''shop'', serialize = id, unserialize = the\<rparr>
     [(''shop.cars.bmw.large'', ''1''), (''shop.cars.ford.large'', ''2''),
      (''shop.cars.opel.medium'', ''3'')] ''cars.*.large''
     = Inr [''cars.bmw.large'', ''cars.ford.large'']"
  "findKeys FindKeysReBuilder \<lparr>ns = ''shop'', serialize = id, unserialize = the\<rparr>
     [(''shop.a'', ''1''), (''shop.b.c'', ''2'')] ''*'' = Inr [''a'']"
  by code_simp+

text \<open>
  C1.  The store of namespace \<^verbatim>\<open>a.b\<close> writes its key \<^verbatim>\<open>c\<close> as the physical key
  \<^verbatim>\<open>a.b.c\<close>.  On that backend the only candidate \<^verbatim>\<open>findKeys\<close> hands to the matcher is
  \<^verbatim>\<open>b.c\<close>, the rest after the first dot, whatever the pattern and the matcher: the
  pattern \<^verbatim>\<open>c\<close> finds nothing, and the pattern \<^verbatim>\<open>*.*\<close> returns \<^verbatim>\<open>b.c\<close>, which is not a
  logical key of the namespace.
\<close>

theorem findKeys_dotted_namespace:
  "setItem \<lparr>ns = ''a.b'', serialize = id, unserialize = the\<rparr> [] ''c'' ''1'' = [(''a.b.c'', ''1'')] \<and>
   findKeys (\<lambda>p. Some re) \<lparr>ns = ''a.b'', serialize = id, unserialize = the\<rparr>
     [(''a.b.c'', ''1'')] pattern = Inr (filter re [''b.c'']) \<and>
   findKeys FindKeysReBuilder \<lparr>ns = ''a.b'', serialize = id, unserialize = the\<rparr>
     [(''a.b.c'', ''1'')] ''c'' = Inr [] \<and>
   findKeys FindKeysReBuilder \<lparr>ns = ''a.b'', serialize = id, unserialize = the\<rparr>
     [(''a.b.c'', ''1'')] ''*.*'' = Inr [''b.c'']"
proof -
  let ?st = "\<lparr>ns = ''a.b'', serialize = id, unserialize = the\<rparr> :: string SyncLocalStorage"
  have s: "map stripKey (filter (inNamespace ?st) (physicalKeys [(''a.b.c'', ''1'')])) = [''b.c'']"
    by code_simp
  have 1: "setItem ?st [] ''c'' ''1'' = [(''a.b.c'', ''1'')]"
    by code_simp
  have 2: "findKeys (\<lambda>p. Some re) ?st [(''a.b.c'', ''1'')] pattern = Inr (filter re [''b.c''])"
    by (simp only: findKeys_filter [of "\<lambda>p. Some re" pattern re] s)
  have 3: "findKeys FindKeysReBuilder ?st [(''a.b.c'', ''1'')] ''c'' = Inr []"
    by code_simp
  have 4: "findKeys FindKeysReBuilder ?st [(''a.b.c'', ''1'')] ''*.*'' = Inr [''b.c'']"
    by code_simp
  from 1 2 3 4 show ?thesis by simp
qed

section \<open>Clearing a namespace\<close>

text \<open>
  \<^verbatim>\<open>clear\<close> removes the keys it collected from the backend as it was before the first
  removal (\<open>clear_snapshot\<close>).  Every key it removes starts with the namespace and a
  dot, so the entries outside the namespace stay as they are, in their order.  For a
  namespace without a dot it removes exactly the entries of the namespace, and
  \<^verbatim>\<open>keys()\<close> has only \<^verbatim>\<open>null\<close> entries afterwards.
\<close>

lemma clear_removed_keys:
  "clear st ls =
     filter (\<lambda>p. fst p \<notin> (\<lambda>k. ns st @ ''.'' @ stripKey k) `
                 {k \<in> set (physicalKeys ls). inNamespace st k}) ls"
  by (simp add: clear_snapshot keys_physicalKeys nonNull_map_if clear_remove_filter image_image)

lemma clear_keeps_foreign:
  "filter (\<lambda>p. \<not> startsWithNamespace st (fst p)) (clear st ls) =
   filter (\<lambda>p. \<not> startsWithNamespace st (fst p)) ls"
proof -
  have "\<And>p k. \<not> startsWithNamespace st (fst p) \<Longrightarrow> fst p \<noteq> ns st @ ''.'' @ stripKey k"
    by (auto simp: startsWithNamespace_def)
  then show ?thesis
    unfolding clear_removed_keys filter_filter
    by (intro filter_cong refl) auto
qed

lemma clear_dot_free:
  assumes "CHR ''.'' \<notin> set (ns st)"
  shows "clear st ls = filter (\<lambda>p. \<not> startsWithNamespace st (fst p)) ls"
proof -
  have restore: "ns st @ ''.'' @ stripKey k = k" if "inNamespace st k" for k
  proof -
    from that have s: "startsWithNamespace st k" by (simp add: inNamespace_iff)
    with assms have "stripKey k = logicalKey st k" by (rule stripKey_logicalKey)
    with logicalKey_physical [OF s] show ?thesis by simp
  qed
  have "(\<lambda>k. ns st @ ''.'' @ stripKey k) ` {k \<in> set (physicalKeys ls). inNamespace st k}
      = {k \<in> set (physicalKeys ls). inNamespace st k}"
    using restore by (auto simp: image_iff)
  then show ?thesis
    unfolding clear_removed_keys
    by (intro filter_cong refl) (auto simp: inNamespace_iff physicalKeys_def)
qed

lemma keys_clear_dot_free:
  assumes "CHR ''.'' \<notin> set (ns st)"
  shows "nonNull (keys st (clear st ls)) = []"
proof -
  have "filter (inNamespace st) (physicalKeys (clear st ls)) = []"
    by (simp add: clear_dot_free [OF assms] physicalKeys_def inNamespace_iff filter_map o_def)
  then show ?thesis
    by (simp add: keys_physicalKeys nonNull_map_if)
qed

text \<open>
  C4.  The store of namespace \<^verbatim>\<open>a.b\<close> writes its key \<^verbatim>\<open>c\<close> as the physical key
  \<^verbatim>\<open>a.b.c\<close>.  \<^verbatim>\<open>clear()\<close> on that backend collects \<^verbatim>\<open>b.c\<close> and removes the physical key
  \<^verbatim>\<open>a.b.b.c\<close>, which is not there: the backend is unchanged, and \<^verbatim>\<open>keys()\<close> still has
  an entry that is not \<^verbatim>\<open>null\<close>.
\<close>

theorem clear_dotted_namespace:
  "setItem \<lparr>ns = ''a.b'', serialize = id, unserialize = the\<rparr> [] ''c'' ''1'' = [(''a.b.c'', ''1'')] \<and>
   clear \<lparr>ns = ''a.b'', serialize = id, unserialize = the\<rparr> [(''a.b.c'', ''1'')]
     = [(''a.b.c'', ''1'')] \<and>
   keys \<lparr>ns = ''a.b'', serialize = id, unserialize = the\<rparr>
     (clear \<lparr>ns = ''a.b'', serialize = id, unserialize = the\<rparr> [(''a.b.c'', ''1'')])
     = [Some ''b.c'']"
  by code_simp

end
